theory Spec2Isabelle
  imports Main
begin

section \<open>The behavior router of the edge-lambda simulator\<close>

text \<open>
  A shallow embedding of \<^verbatim>\<open>src/behavior-router.ts\<close> (class \<^verbatim>\<open>BehaviorRouter\<close>).
  The router keeps a registry of behaviors (a JavaScript \<^verbatim>\<open>Map\<close> from path pattern to
  \<^verbatim>\<open>FunctionSet\<close>), resolves a request to a behavior, runs a lifecycle on it and writes
  the outcome to the HTTP response.

  What the router calls but does not define (the URL parser and \<^verbatim>\<open>parseInt\<close> of the
  platform, the glob compiler, the lifecycle, the cache service, the error classes, the
  header helper) is a field of the record \<open>deps\<close>, passed to every operation.
\<close>

subsection \<open>JavaScript Map: insertion-ordered, one entry per key\<close>

text \<open>
  A \<^verbatim>\<open>Map\<close> iterates in insertion order; \<^verbatim>\<open>set\<close> on a key that is present replaces the
  value and keeps the entry's position, on a new key it appends.
\<close>

type_synonym ('k, 'v) js_map = "('k \<times> 'v) list"

definition Map_has :: "('k, 'v) js_map \<Rightarrow> 'k \<Rightarrow> bool" where
  "Map_has m k = (k \<in> set (map fst m))"

definition Map_get :: "('k, 'v) js_map \<Rightarrow> 'k \<Rightarrow> 'v option" where
  "Map_get m k = map_of m k"

fun Map_set :: "('k, 'v) js_map \<Rightarrow> 'k \<Rightarrow> 'v \<Rightarrow> ('k, 'v) js_map" where
  "Map_set [] k v = [(k, v)]"
| "Map_set ((k', v') # m) k v = (if k' = k then (k, v) # m else (k', v') # Map_set m k v)"

definition Map_clear :: "('k, 'v) js_map \<Rightarrow> ('k, 'v) js_map" where
  "Map_clear m = []"

subsection \<open>Configuration and registry data\<close>

datatype EventType = ViewerRequest | OriginRequest | OriginResponse | ViewerResponse

text \<open>The \<^verbatim>\<open>OriginMapping\<close> interface of the source (\<open>default\<close> is never read).\<close>

record OriginMapping =
  pathPattern :: string
  target :: string

text \<open>
  A function definition of \<^verbatim>\<open>serverless.service.functions\<close>. \<open>lambdaAtEdge = None\<close> is a
  definition without the key \<^verbatim>\<open>lambdaAtEdge\<close>; \<open>pathPattern = None\<close> an absent pattern.
\<close>

record LambdaAtEdge =
  pathPattern :: "string option"
  eventType :: EventType

record FunctionDef =
  handler :: string
  lambdaAtEdge :: "LambdaAtEdge option"

datatype Origin = Origin string

text \<open>
  \<^verbatim>\<open>FunctionSet\<close>: the pattern, its compiled matcher \<open>regex\<close> (\<^verbatim>\<open>regex.test\<close> as a
  predicate on paths), the optional origin and one slot per stage holding the handler
  reference.
\<close>

record FunctionSet =
  pattern :: string
  regex :: "string \<Rightarrow> bool"
  origin :: "Origin option"
  viewerRequest :: "string option"
  originRequest :: "string option"
  originResponse :: "string option"
  viewerResponse :: "string option"

datatype error = InvalidPattern string | TypeError string

subsection \<open>Requests, responses and errors\<close>

record Request =
  req_method :: "string option"
  url :: "string option"

text \<open>The response the lifecycle returns (a CloudFront result response).\<close>

record 'hd CloudFrontResponse =
  status :: string
  statusDescription :: "string option"
  headers :: 'hd
  body :: "string option"

text \<open>
  Modelled from the spec: the payload of an error response is \<^verbatim>\<open>{code, message}\<close>; this is
  what \<^verbatim>\<open>getResponsePayload\<close> of the error classes (\<^verbatim>\<open>./errors/http\<close>, not part of the
  sources at hand) returns.
\<close>

record ResponsePayload =
  code :: int
  message :: string

text \<open>
  An \<^verbatim>\<open>HttpError\<close> as \<^verbatim>\<open>handleError\<close> reads it. \<open>getResponsePayload = Some p\<close> is an
  error object that has \<^verbatim>\<open>getResponsePayload\<close> as an own property, returning \<open>p\<close>;
  \<open>None\<close> is an object without that own property.
\<close>

record HttpError =
  statusCode :: "int option"
  message :: string
  stack :: "string option"
  getResponsePayload :: "ResponsePayload option"

text \<open>What \<^verbatim>\<open>res.end\<close> is called with.\<close>

datatype payload = NoBody | Text string | JSON_stringify ResponsePayload

text \<open>
  The value of a header as the loop of \<^verbatim>\<open>listen\<close> tests it and hands it to
  \<^verbatim>\<open>setHeader\<close>: absent, a string, or an array of strings (headers are multi-valued).
  \<open>truthy\<close> is the test \<^verbatim>\<open>if (value)\<close>: \<^verbatim>\<open>undefined\<close>, \<^verbatim>\<open>null\<close> and the empty string are
  falsy; every array is truthy, the empty one and one of empty strings included.
\<close>

datatype header_value = Undefined | Null | Str string | Arr "string list"

fun truthy :: "header_value \<Rightarrow> bool" where
  "truthy Undefined = False"
| "truthy Null = False"
| "truthy (Str s) = (s \<noteq> [])"
| "truthy (Arr vs) = True"

text \<open>
  \<^verbatim>\<open>ServerResponse\<close> as the router writes it: the two fields it assigns, the headers set
  by the \<^verbatim>\<open>setHeader\<close> calls that returned, in order, and the argument of the \<^verbatim>\<open>end\<close> that
  returned (\<open>None\<close> until the response is ended). A status of \<open>None\<close> is \<^verbatim>\<open>NaN\<close>.
\<close>

record ServerResponse =
  statusCode :: "int option"
  statusMessage :: "string option"
  setHeader_calls :: "(string \<times> header_value) list"
  ended :: "payload option"

datatype call = CachePurge | Match | ConvertEvent | LifecycleRun | HandleError

subsection \<open>The router's collaborators\<close>

text \<open>
  \<open>URL_pathname\<close> is \<^verbatim>\<open>new URL(u, 'http://localhost').pathname\<close>, \<open>None\<close> when the
  constructor throws. \<open>convertToCloudFrontEvent\<close> and \<open>asHttpHeaders\<close> may throw (\<open>Inl\<close>).
  \<open>setHeader_error\<close> and \<open>end_error\<close> are the errors \<^verbatim>\<open>res.setHeader\<close> and \<^verbatim>\<open>res.end\<close> throw
  on what they refuse (\<open>None\<close> when they return), inside the \<^verbatim>\<open>try\<close> of \<^verbatim>\<open>listen\<close>.
\<close>

record ('c, 'ev, 'hd) deps =
  URL_pathname :: "string \<Rightarrow> string option"
  globToRegExp :: "string \<Rightarrow> (string \<Rightarrow> bool) option"
  path_join :: "string \<Rightarrow> string \<Rightarrow> string"
  parseInt :: "string \<Rightarrow> int option"
  convertToCloudFrontEvent :: "Request \<Rightarrow> error + 'ev"
  lifecycle_run :: "FunctionSet \<Rightarrow> 'ev \<Rightarrow> string option \<Rightarrow> 'c
    \<Rightarrow> (HttpError + 'hd CloudFrontResponse option) \<times> 'c"
  cache_purge :: "'c \<Rightarrow> 'c"
  InternalServerError :: "string \<Rightarrow> HttpError"
  asHttpHeaders :: "'hd \<Rightarrow> HttpError + (string \<times> header_value) list"
  setHeader_error :: "string \<Rightarrow> header_value \<Rightarrow> HttpError option"
  end_error :: "ServerResponse \<Rightarrow> payload \<Rightarrow> HttpError option"

record 'c router =
  service_functions :: "(string \<times> FunctionDef) list"
  origins :: "string \<rightharpoonup> Origin"
  path :: string
  behaviors :: "(string, FunctionSet) js_map"
  cacheService :: 'c

subsection \<open>Building the registry\<close>

text \<open>
  \<^verbatim>\<open>configureOrigins\<close>: the origin map of the configuration, folded into a map from
  path pattern to origin; a later mapping for the same pattern wins.
\<close>

definition configureOrigins :: "OriginMapping list \<Rightarrow> (string \<rightharpoonup> Origin)" where
  "configureOrigins mappings =
     fold (\<lambda>item acc. acc(OriginMapping.pathPattern item \<mapsto> Origin (target item)))
       mappings Map.empty"

text \<open>
  Modelled from the spec: the constructor of \<^verbatim>\<open>FunctionSet\<close> (\<^verbatim>\<open>./function-set\<close>, not part
  of the sources at hand). A behavior is created with its pattern, the compiled matcher
  of the pattern, its origin and no stage handler; a pattern that does not compile fails
  the registration with \<open>InvalidPattern\<close>.
\<close>

definition FunctionSet_new ::
  "('c, 'ev, 'hd) deps \<Rightarrow> string \<Rightarrow> Origin option \<Rightarrow> error + FunctionSet" where
  "FunctionSet_new D pat orig =
     (case globToRegExp D pat of
        None \<Rightarrow> Inl (InvalidPattern pat)
      | Some rx \<Rightarrow> Inr \<lparr>pattern = pat, regex = rx, origin = orig,
          viewerRequest = None, originRequest = None,
          originResponse = None, viewerResponse = None\<rparr>)"

text \<open>
  Modelled from the spec: \<^verbatim>\<open>FunctionSet.setHandler\<close> (not part of the sources at hand)
  stores the handler reference in the slot of the stage; a later registration for a
  filled slot replaces it.
\<close>

fun setHandler :: "FunctionSet \<Rightarrow> EventType \<Rightarrow> string \<Rightarrow> FunctionSet" where
  "setHandler fnSet ViewerRequest p = fnSet\<lparr>viewerRequest := Some p\<rparr>"
| "setHandler fnSet OriginRequest p = fnSet\<lparr>originRequest := Some p\<rparr>"
| "setHandler fnSet OriginResponse p = fnSet\<lparr>originResponse := Some p\<rparr>"
| "setHandler fnSet ViewerResponse p = fnSet\<lparr>viewerResponse := Some p\<rparr>"


text \<open>\<^verbatim>\<open>def.lambdaAtEdge.pathPattern || '*'\<close>: an absent or empty pattern is \<^verbatim>\<open>'*'\<close>.\<close>

definition pattern_of :: "LambdaAtEdge \<Rightarrow> string" where
  "pattern_of lae =
     (case LambdaAtEdge.pathPattern lae of
        None \<Rightarrow> ''*''
      | Some p \<Rightarrow> if p = [] then ''*'' else p)"

text \<open>
  One iteration of the loop of \<^verbatim>\<open>extractBehaviors\<close> (lines 186 to 195). The
  \<^verbatim>\<open>FunctionSet\<close> is an object the map refers to: \<^verbatim>\<open>setHandler\<close> changes the entry in
  place. Reading a property of an absent \<^verbatim>\<open>lambdaAtEdge\<close> or calling a method of an
  absent entry is a \<^verbatim>\<open>TypeError\<close>.
\<close>

definition register_def ::
  "('c, 'ev, 'hd) deps \<Rightarrow> (string \<rightharpoonup> Origin) \<Rightarrow> string \<Rightarrow> FunctionDef
     \<Rightarrow> (string, FunctionSet) js_map \<Rightarrow> error + (string, FunctionSet) js_map" where
  "register_def D orig base def bs =
     (case lambdaAtEdge def of
        None \<Rightarrow> Inl (TypeError ''lambdaAtEdge'')
      | Some lae \<Rightarrow>
          let pat = pattern_of lae in
          (case (if \<not> Map_has bs pat
                 then (case FunctionSet_new D pat (orig pat) of
                         Inl e \<Rightarrow> Inl e
                       | Inr fs \<Rightarrow> Inr (Map_set bs pat fs))
                 else Inr bs) of
             Inl e \<Rightarrow> Inl e
           | Inr bs1 \<Rightarrow>
               (case Map_get bs1 pat of
                  None \<Rightarrow> Inl (TypeError ''setHandler'')
                | Some fnSet \<Rightarrow>
                    Inr (Map_set bs1 pat
                      (setHandler fnSet (eventType lae) (path_join D base (handler def)))))))"

fun register_all ::
  "('c, 'ev, 'hd) deps \<Rightarrow> (string \<rightharpoonup> Origin) \<Rightarrow> string \<Rightarrow> FunctionDef list
     \<Rightarrow> (string, FunctionSet) js_map \<Rightarrow> error + (string, FunctionSet) js_map" where
  "register_all D orig base [] bs = Inr bs"
| "register_all D orig base (def # defs) bs =
     (case register_def D orig base def bs of
        Inl e \<Rightarrow> Inl e
      | Inr bs' \<Rightarrow> register_all D orig base defs bs')"

text \<open>The definitions that have the key \<^verbatim>\<open>lambdaAtEdge\<close>, in the order of the entries.\<close>

definition lambdaDefs :: "(string \<times> FunctionDef) list \<Rightarrow> FunctionDef list" where
  "lambdaDefs fns = map snd (filter (\<lambda>(name, fn). lambdaAtEdge fn \<noteq> None) fns)"

text \<open>
  \<^verbatim>\<open>extractBehaviors\<close>: clears the registry, registers every definition and adds the
  \<^verbatim>\<open>'*'\<close> behavior when no definition created it. The result is the registry, or the
  error that ends the build.
\<close>

definition extractBehaviors ::
  "('c, 'ev, 'hd) deps \<Rightarrow> 'c router \<Rightarrow> error + 'c router" where
  "extractBehaviors D R =
     (case register_all D (origins R) (path R) (lambdaDefs (service_functions R))
             (Map_clear (behaviors R)) of
        Inl e \<Rightarrow> Inl e
      | Inr bs \<Rightarrow>
          if \<not> Map_has bs ''*''
          then (case FunctionSet_new D ''*'' (origins R ''*'') of
                  Inl e \<Rightarrow> Inl e
                | Inr fs \<Rightarrow> Inr (R\<lparr>behaviors := Map_set bs ''*'' fs\<rparr>))
          else Inr (R\<lparr>behaviors := bs\<rparr>))"

subsection \<open>Resolving a request to a behavior\<close>

text \<open>
  The first entry, in iteration order, whose matcher accepts the path (the loop of
  \<^verbatim>\<open>match\<close>, lines 70 to 74).
\<close>

fun first_match :: "(string, FunctionSet) js_map \<Rightarrow> string \<Rightarrow> FunctionSet option" where
  "first_match [] p = None"
| "first_match ((k, h) # bs) p = (if regex h p then Some h else first_match bs p)"

text \<open>
  \<^verbatim>\<open>match\<close>: \<open>Inr None\<close> is the result \<^verbatim>\<open>null\<close>; \<open>Inl\<close> is the \<^verbatim>\<open>TypeError\<close> the URL
  constructor throws on a string it cannot parse. An absent and an empty \<^verbatim>\<open>req.url\<close>
  are both falsy.
\<close>

definition match ::
  "('c, 'ev, 'hd) deps \<Rightarrow> (string, FunctionSet) js_map \<Rightarrow> Request
     \<Rightarrow> error + FunctionSet option" where
  "match D bs req =
     (case url req of
        None \<Rightarrow> Inr None
      | Some u \<Rightarrow>
          if u = [] then Inr None
          else (case URL_pathname D u of
                  None \<Rightarrow> Inl (TypeError ''Invalid URL'')
                | Some p \<Rightarrow>
                    (case first_match bs p of
                       Some h \<Rightarrow> Inr (Some h)
                     | None \<Rightarrow> Inr (Map_get bs ''*''))))"

subsection \<open>Serving a request\<close>

text \<open>
  \<^verbatim>\<open>toUpperCase\<close> on the letters \<^verbatim>\<open>a\<close> to \<^verbatim>\<open>z\<close>. No character outside ASCII has one
  of the letters of \<^verbatim>\<open>PURGE\<close> as its upper case, so the comparison with \<^verbatim>\<open>'PURGE'\<close>
  below is the one of the source.
\<close>

definition toUpperCase_char :: "char \<Rightarrow> char" where
  "toUpperCase_char c =
     (let n = (of_char c :: nat) in if 97 \<le> n \<and> n \<le> 122 then char_of (n - 32) else c)"

definition toUpperCase :: "string \<Rightarrow> string" where
  "toUpperCase s = map toUpperCase_char s"

text \<open>\<^verbatim>\<open>(req.method || '').toUpperCase() === 'PURGE'\<close>\<close>

definition is_purge :: "Request \<Rightarrow> bool" where
  "is_purge req = (toUpperCase (case req_method req of None \<Rightarrow> [] | Some m \<Rightarrow> m) = ''PURGE'')"

definition purgeStorage :: "('c, 'ev, 'hd) deps \<Rightarrow> 'c router \<Rightarrow> 'c router" where
  "purgeStorage D R = R\<lparr>cacheService := cache_purge D (cacheService R)\<rparr>"

text \<open>
  \<^verbatim>\<open>handleError\<close>. \<^verbatim>\<open>err.statusCode || 500\<close> takes 500 for an absent status and for
  the falsy status 0; \<^verbatim>\<open>err.stack || err.message\<close> takes the message for an absent or
  empty stack.
\<close>

definition handleError :: "HttpError \<Rightarrow> ServerResponse \<Rightarrow> ServerResponse" where
  "handleError err res =
     res\<lparr>ServerResponse.statusCode :=
           Some (case HttpError.statusCode err of
                   None \<Rightarrow> 500
                 | Some c \<Rightarrow> if c = 0 then 500 else c),
         ended :=
           Some (JSON_stringify
             (case getResponsePayload err of
                Some p \<Rightarrow> p
              | None \<Rightarrow>
                  \<lparr>code = 500,
                   ResponsePayload.message =
                     (case stack err of
                        None \<Rightarrow> HttpError.message err
                      | Some s \<Rightarrow> if s = [] then HttpError.message err else s)\<rparr>))\<rparr>"

definition setHeader :: "ServerResponse \<Rightarrow> string \<Rightarrow> header_value \<Rightarrow> ServerResponse" where
  "setHeader res key v = res\<lparr>setHeader_calls := setHeader_calls res @ [(key, v)]\<rparr>"

text \<open>
  The loop over \<^verbatim>\<open>helper.asHttpHeaders()\<close> (lines 121 to 125): a header is set when its
  value is truthy. The loop ends at the first \<^verbatim>\<open>setHeader\<close> that throws; the result is
  that error, if any, and the response as it is then.
\<close>

fun set_headers ::
  "('c, 'ev, 'hd) deps \<Rightarrow> (string \<times> header_value) list \<Rightarrow> ServerResponse
     \<Rightarrow> HttpError option \<times> ServerResponse" where
  "set_headers D [] res = (None, res)"
| "set_headers D ((key, v) # hs) res =
     (if truthy v
      then (case setHeader_error D key v of
              Some err \<Rightarrow> (Some err, res)
            | None \<Rightarrow> set_headers D hs (setHeader res key v))
      else set_headers D hs res)"

text \<open>
  Lines 116 to 127: the response of the lifecycle written to the client. The result is
  the error thrown on the way, if any, and the response as written until then.
\<close>

definition write_response ::
  "('c, 'ev, 'hd) deps \<Rightarrow> 'hd CloudFrontResponse \<Rightarrow> ServerResponse
     \<Rightarrow> HttpError option \<times> ServerResponse" where
  "write_response D resp res =
     (let res1 = res\<lparr>ServerResponse.statusCode := parseInt D (status resp),
                        statusMessage :=
                          Some (case statusDescription resp of None \<Rightarrow> [] | Some d \<Rightarrow> d)\<rparr>
      in case asHttpHeaders D (headers resp) of
           Inl err \<Rightarrow> (Some err, res1)
         | Inr hs \<Rightarrow>
             (case set_headers D hs res1 of
                (Some err, res2) \<Rightarrow> (Some err, res2)
              | (None, res2) \<Rightarrow>
                  let b = (case body resp of None \<Rightarrow> NoBody | Some s \<Rightarrow> Text s) in
                  (case end_error D res2 b of
                     Some err \<Rightarrow> (Some err, res2)
                   | None \<Rightarrow> (None, res2\<lparr>ended := Some b\<rparr>))))"

text \<open>
  What serving one request leaves behind: the response as written, the router (its cache
  may have changed) and the collaborators called, in order.
\<close>

record 'c outcome =
  response :: ServerResponse
  router_after :: "'c router"
  calls :: "call list"

text \<open>
  The request handler \<^verbatim>\<open>listen\<close> installs (lines 90 to 132). \<open>Inl\<close> is an error that
  leaves the handler: \<^verbatim>\<open>match\<close> (line 99) and \<^verbatim>\<open>convertToCloudFrontEvent\<close> (line 100) are
  called outside the \<^verbatim>\<open>try\<close>, the conversion before the test of the behavior. An error
  thrown inside the \<^verbatim>\<open>try\<close> is handed to \<open>handleError\<close> with the response as it is then.
\<close>

definition handle_request ::
  "('c, 'ev, 'hd) deps \<Rightarrow> 'c router \<Rightarrow> Request \<Rightarrow> ServerResponse \<Rightarrow> error + 'c outcome" where
  "handle_request D R req res =
     (if is_purge req
      then Inr \<lparr>response = res\<lparr>ServerResponse.statusCode := Some 200, ended := Some NoBody\<rparr>,
                router_after = purgeStorage D R,
                calls = [CachePurge]\<rparr>
      else
        (case match D (behaviors R) req of
           Inl e \<Rightarrow> Inl e
         | Inr fnSet \<Rightarrow>
             (case convertToCloudFrontEvent D req of
                Inl e \<Rightarrow> Inl e
              | Inr cfEvent \<Rightarrow>
                  (case fnSet of
                     None \<Rightarrow>
                       Inr \<lparr>response =
                              res\<lparr>ServerResponse.statusCode := Some 404, ended := Some NoBody\<rparr>,
                            router_after = R,
                            calls = [Match, ConvertEvent]\<rparr>
                   | Some h \<Rightarrow>
                       (case lifecycle_run D h cfEvent (url req) (cacheService R) of
                          (Inl err, c) \<Rightarrow>
                            Inr \<lparr>response = handleError err res,
                                 router_after = R\<lparr>cacheService := c\<rparr>,
                                 calls = [Match, ConvertEvent, LifecycleRun, HandleError]\<rparr>
                        | (Inr None, c) \<Rightarrow>
                            Inr \<lparr>response =
                                   handleError
                                     (InternalServerError D
                                        ''No response set after full request lifecycle'') res,
                                 router_after = R\<lparr>cacheService := c\<rparr>,
                                 calls = [Match, ConvertEvent, LifecycleRun, HandleError]\<rparr>
                        | (Inr (Some resp), c) \<Rightarrow>
                            (case write_response D resp res of
                               (None, res') \<Rightarrow>
                                 Inr \<lparr>response = res',
                                      router_after = R\<lparr>cacheService := c\<rparr>,
                                      calls = [Match, ConvertEvent, LifecycleRun]\<rparr>
                             | (Some err, res') \<Rightarrow>
                                 Inr \<lparr>response = handleError err res',
                                      router_after = R\<lparr>cacheService := c\<rparr>,
                                      calls =
                                        [Match, ConvertEvent, LifecycleRun, HandleError]\<rparr>))))))"

subsection \<open>A concrete platform for examples\<close>

text \<open>
  Modelled from the spec: the matcher of a glob pattern (the package \<^verbatim>\<open>glob-to-regexp\<close>
  behind \<^verbatim>\<open>FunctionSet.regex\<close>, not part of the sources at hand). \<^verbatim>\<open>*\<close> matches any run of
  characters, every other character matches itself, and the pattern is anchored: it
  must match the whole path.
\<close>

fun glob_match :: "string \<Rightarrow> string \<Rightarrow> bool" where
  "glob_match [] s = (s = [])"
| "glob_match (p # ps) [] = (p = CHR ''*'' \<and> glob_match ps [])"
| "glob_match (p # ps) (c # cs) =
     (if p = CHR ''*'' then glob_match ps (c # cs) \<or> glob_match (p # ps) cs
      else p = c \<and> glob_match ps cs)"

text \<open>
  The pathname the URL constructor gives, relative to \<^verbatim>\<open>http://localhost\<close>, for a request
  target made of a path, a query and a fragment, where the path has no dot segment, no
  backslash and no character the parser escapes. A target that starts with two slashes
  names a host: the constructor throws when that host is empty, as for \<^verbatim>\<open>//\<close>. Targets
  with a scheme are outside this stub.
\<close>

definition example_pathname :: "string \<Rightarrow> string option" where
  "example_pathname u =
     (let path_part = takeWhile (\<lambda>x. x \<noteq> CHR ''?'' \<and> x \<noteq> CHR ''#'') in
      if take 2 u = ''//''
      then (let rest = drop 2 u;
                host = takeWhile (\<lambda>x. x \<noteq> CHR ''/'' \<and> x \<noteq> CHR ''?'' \<and> x \<noteq> CHR ''#'') rest;
                p = path_part (drop (length host) rest)
            in if host = [] then None else Some (if p = [] then ''/'' else p))
      else if take 1 u = ''/'' then Some (path_part u)
      else Some (CHR ''/'' # path_part u))"

text \<open>
  Modelled from the spec: headers are multi-valued; the helper behind \<^verbatim>\<open>asHttpHeaders\<close>
  (\<^verbatim>\<open>./utils\<close>, not part of the sources at hand) yields every header with the array of its
  values.
\<close>

definition multi_valued :: "(string \<times> string list) list \<Rightarrow> HttpError + (string \<times> header_value) list" where
  "multi_valued hs = Inr (map (\<lambda>(k, vs). (k, Arr vs)) hs)"

text \<open>A response with a header whose value is the empty string.\<close>

definition hello_response :: "((string \<times> string list) list) CloudFrontResponse" where
  "hello_response =
     \<lparr>status = ''200'', statusDescription = Some ''OK'',
      headers = [(''content-type'', [''text/plain'']), (''x-empty'', [[]]),
                 (''x-served-by'', [''edge''])],
      body = Some ''hello''\<rparr>"

definition invalid_token :: HttpError where
  "invalid_token =
     \<lparr>HttpError.statusCode = None, message = ''Header name must be a valid HTTP token'',
      stack = None, getResponsePayload = None\<rparr>"

definition invalid_status :: HttpError where
  "invalid_status =
     \<lparr>HttpError.statusCode = None, message = ''Invalid status code'',
      stack = None, getResponsePayload = None\<rparr>"

text \<open>
  A platform to run the router on: the glob matcher and the helper above, an event
  conversion that fails on a request without URL (it parses \<^verbatim>\<open>req.url\<close>), a stub lifecycle
  that answers \<open>hello_response\<close> for a behavior with a viewer-request handler and returns
  no response for any other, a cache given by the number of its entries, a \<^verbatim>\<open>parseInt\<close>
  that reads the status 200 only, a \<^verbatim>\<open>setHeader\<close> that refuses the empty header name and
  an \<^verbatim>\<open>end\<close> that refuses the status \<^verbatim>\<open>NaN\<close>.
\<close>

definition example_deps :: "(nat, unit, (string \<times> string list) list) deps" where
  "example_deps =
     \<lparr>URL_pathname = example_pathname,
      globToRegExp = (\<lambda>p. Some (glob_match p)),
      path_join = (\<lambda>a b. if a = [] then b else a @ ''/'' @ b),
      parseInt = (\<lambda>s. if s = ''200'' then Some 200 else None),
      convertToCloudFrontEvent = (\<lambda>req.
         case url req of
           None \<Rightarrow> Inl (TypeError ''The url argument must be of type string'')
         | Some u \<Rightarrow> Inr ()),
      lifecycle_run = (\<lambda>h ev u c.
         case viewerRequest h of
           Some p \<Rightarrow> (Inr (Some hello_response), c)
         | None \<Rightarrow> (Inr None, c)),
      cache_purge = (\<lambda>c. 0),
      InternalServerError = (\<lambda>m. \<lparr>HttpError.statusCode = Some 500, HttpError.message = m,
         stack = None, getResponsePayload = None\<rparr>),
      asHttpHeaders = multi_valued,
      setHeader_error = (\<lambda>k v. if k = [] then Some invalid_token else None),
      end_error = (\<lambda>res b.
         if ServerResponse.statusCode res = None then Some invalid_status else None)\<rparr>"

text \<open>
  A helper that yields single values instead: a string, an empty string, an absent
  value, \<^verbatim>\<open>null\<close>, and an empty array.
\<close>

definition single_valued ::
  "(string \<times> string list) list \<Rightarrow> HttpError + (string \<times> header_value) list" where
  "single_valued hs =
     Inr [(''content-type'', Str ''text/plain''), (''x-empty'', Str []),
          (''x-absent'', Undefined), (''x-null'', Null), (''set-cookie'', Arr [])]"

text \<open>
  A configuration whose first function has no path pattern (so it registers \<^verbatim>\<open>'*'\<close>) and
  whose second and third register \<^verbatim>\<open>/api/*\<close>; the fourth entry is no edge function.
\<close>

definition example_router :: "nat router" where
  "example_router =
     \<lparr>service_functions =
        [(''default'', \<lparr>handler = ''src/default.viewer'',
            lambdaAtEdge = Some \<lparr>LambdaAtEdge.pathPattern = None, eventType = ViewerRequest\<rparr>\<rparr>),
         (''api'', \<lparr>handler = ''src/api.request'',
            lambdaAtEdge = Some \<lparr>LambdaAtEdge.pathPattern = Some ''/api/*'',
              eventType = OriginRequest\<rparr>\<rparr>),
         (''api2'', \<lparr>handler = ''src/api.response'',
            lambdaAtEdge = Some \<lparr>LambdaAtEdge.pathPattern = Some ''/api/*'',
              eventType = OriginResponse\<rparr>\<rparr>),
         (''cron'', \<lparr>handler = ''src/cron.run'', lambdaAtEdge = None\<rparr>)],
      origins = configureOrigins
        [\<lparr>OriginMapping.pathPattern = ''/api/*'', target = ''http://localhost:8080''\<rparr>],
      path = [],
      behaviors = [],
      cacheService = 7\<rparr>"

text \<open>A configuration that registers only \<^verbatim>\<open>/api/*\<close>.\<close>

definition api_router :: "nat router" where
  "api_router =
     \<lparr>service_functions =
        [(''api'', \<lparr>handler = ''src/api.request'',
            lambdaAtEdge = Some \<lparr>LambdaAtEdge.pathPattern = Some ''/api/*'',
              eventType = ViewerRequest\<rparr>\<rparr>)],
      origins = Map.empty,
      path = ''.build'',
      behaviors = [],
      cacheService = 7\<rparr>"

definition fresh_response :: ServerResponse where
  "fresh_response =
     \<lparr>ServerResponse.statusCode = Some 200, statusMessage = None,
      setHeader_calls = [], ended = None\<rparr>"

text \<open>The registries the two example configurations build.\<close>

definition example_registry :: "(string, FunctionSet) js_map" where
  "example_registry =
     [(''*'', \<lparr>pattern = ''*'', regex = glob_match ''*'', origin = None,
         viewerRequest = Some ''src/default.viewer'', originRequest = None,
         originResponse = None, viewerResponse = None\<rparr>),
      (''/api/*'', \<lparr>pattern = ''/api/*'', regex = glob_match ''/api/*'',
         origin = Some (Origin ''http://localhost:8080''),
         viewerRequest = None, originRequest = Some ''src/api.request'',
         originResponse = Some ''src/api.response'', viewerResponse = None\<rparr>)]"

definition api_registry :: "(string, FunctionSet) js_map" where
  "api_registry =
     [(''/api/*'', \<lparr>pattern = ''/api/*'', regex = glob_match ''/api/*'', origin = None,
         viewerRequest = Some ''.build/src/api.request'', originRequest = None,
         originResponse = None, viewerResponse = None\<rparr>),
      (''*'', \<lparr>pattern = ''*'', regex = glob_match ''*'', origin = None,
         viewerRequest = None, originRequest = None,
         originResponse = None, viewerResponse = None\<rparr>)]"

subsection \<open>Vocabulary of the properties\<close>





section \<open>Properties\<close>

subsection \<open>The map operations\<close>

lemma Map_set_keys:
  "map fst (Map_set m k v) = (if Map_has m k then map fst m else map fst m @ [k])"
  by (induction m) (force simp: Map_has_def)+

lemma Map_get_Map_set: "Map_get (Map_set m k v) k' = (if k' = k then Some v else Map_get m k')"
  by (induction m) (auto simp: Map_get_def)

lemma Map_has_get: "Map_has m k \<longleftrightarrow> Map_get m k \<noteq> None"
  by (simp add: Map_has_def Map_get_def map_of_eq_None_iff)

lemma Map_has_Map_set: "Map_has (Map_set m k v) k' \<longleftrightarrow> k' = k \<or> Map_has m k'"
  by (simp add: Map_has_get Map_get_Map_set)

lemma distinct_Map_set: "distinct (map fst m) \<Longrightarrow> distinct (map fst (Map_set m k v))"
  by (simp add: Map_set_keys Map_has_def)

lemma set_Map_set: "set (Map_set m k v) \<subseteq> insert (k, v) (set m)"
  by (induction m) (auto split: if_splits)

subsection \<open>The example configurations\<close>

lemma origins_example: "configureOrigins
    [\<lparr>OriginMapping.pathPattern = ''/api/*'', target = ''http://localhost:8080''\<rparr>] k
  = (if k = ''/api/*'' then Some (Origin ''http://localhost:8080'') else None)"
  by (simp add: configureOrigins_def)

lemma extract_example:
  "extractBehaviors example_deps example_router = Inr (example_router\<lparr>behaviors := example_registry\<rparr>)"
  by (simp add: extractBehaviors_def example_router_def example_deps_def lambdaDefs_def
      register_def_def Map_clear_def Map_has_def Map_get_def FunctionSet_new_def
      pattern_of_def origins_example example_registry_def Let_def)

lemma extract_api:
  "extractBehaviors example_deps api_router = Inr (api_router\<lparr>behaviors := api_registry\<rparr>)"
  by (simp add: extractBehaviors_def api_router_def example_deps_def lambdaDefs_def
      register_def_def Map_clear_def Map_has_def Map_get_def FunctionSet_new_def
      pattern_of_def api_registry_def Let_def)

subsection \<open>Resolution and the pathname\<close>

lemma pathname_examples:
  "example_pathname ''/other'' = Some ''/other''"
  "example_pathname ''/api/users'' = Some ''/api/users''"
  "example_pathname ''/api/users?page=1'' = Some ''/api/users''"
  "example_pathname ''/api/users?page=2#top'' = Some ''/api/users''"
  "example_pathname ''//'' = None"
  by (simp_all add: example_pathname_def Let_def)



subsection \<open>The request handler\<close>

lemma is_purge_PURGE: "is_purge \<lparr>req_method = Some ''PURGE'', url = u\<rparr>"
  by (simp add: is_purge_def toUpperCase_def toUpperCase_char_def)

lemma not_purge_GET: "\<not> is_purge \<lparr>req_method = Some ''GET'', url = u\<rparr>"
  by (simp add: is_purge_def toUpperCase_def toUpperCase_char_def)

lemma convert_example:
  "convertToCloudFrontEvent example_deps \<lparr>req_method = m, url = Some u\<rparr> = Inr ()"
  "convertToCloudFrontEvent example_deps \<lparr>req_method = m, url = None\<rparr>
     = Inl (TypeError ''The url argument must be of type string'')"
  by (simp_all add: example_deps_def)

lemma match_api_other:
  "match example_deps api_registry \<lparr>req_method = Some ''GET'', url = Some ''/other''\<rparr>
   = Inr (Some \<lparr>pattern = ''*'', regex = glob_match ''*'', origin = None,
         viewerRequest = None, originRequest = None,
         originResponse = None, viewerResponse = None\<rparr>)"
  by (simp add: match_def example_deps_def pathname_examples api_registry_def)

lemma match_example_api:
  "match example_deps example_registry \<lparr>req_method = Some ''GET'', url = Some ''/api/users''\<rparr>
   = Inr (Some \<lparr>pattern = ''*'', regex = glob_match ''*'', origin = None,
         viewerRequest = Some ''src/default.viewer'', originRequest = None,
         originResponse = None, viewerResponse = None\<rparr>)"
  by (simp add: match_def example_deps_def pathname_examples example_registry_def)

text \<open>
  C3. A request whose method is \<^verbatim>\<open>PURGE\<close> (in any letter case) is answered before any
  resolution: the cache is purged, the response has status 200 and is ended without a
  body, and the only collaborator called is the purge of the cache: no behavior is
  matched and no lifecycle is run.
\<close>

theorem purge_intercepted:
  assumes "is_purge req"
  shows "handle_request D R req res =
           Inr \<lparr>response = res\<lparr>ServerResponse.statusCode := Some 200, ended := Some NoBody\<rparr>,
                router_after = R\<lparr>cacheService := cache_purge D (cacheService R)\<rparr>,
                calls = [CachePurge]\<rparr>"
  using assms by (simp add: handle_request_def purgeStorage_def)

theorem purge_intercepted_witness:
  "handle_request example_deps (example_router\<lparr>behaviors := example_registry\<rparr>)
     \<lparr>req_method = Some ''PURGE'', url = Some ''/api/users''\<rparr> fresh_response =
   Inr \<lparr>response = \<lparr>ServerResponse.statusCode = Some 200, statusMessage = None,
                      setHeader_calls = [], ended = Some NoBody\<rparr>,
        router_after = example_router\<lparr>behaviors := example_registry, cacheService := 0\<rparr>,
        calls = [CachePurge]\<rparr>"
  using purge_intercepted [OF is_purge_PURGE, of example_deps
      "example_router\<lparr>behaviors := example_registry\<rparr>" "Some ''/api/users''" fresh_response]
  by (simp add: fresh_response_def example_deps_def example_router_def)

text \<open>
  C4. \<open>handleError\<close> writes the status the error carries, and 500 when it carries none
  (an absent status, or the falsy status 0); the response is ended with the JSON text of
  an object with the fields \<open>code\<close> and \<open>message\<close>. For an error without a payload of its
  own the code is 500 and the message is the stack, or the message of the error when it
  has no stack. An error the lifecycle of a request raises is answered this way.
\<close>

theorem handleError_writes:
  "(\<forall>c. HttpError.statusCode err = Some c \<and> c \<noteq> 0
        \<longrightarrow> ServerResponse.statusCode (handleError err res) = Some c)
   \<and> (HttpError.statusCode err = None \<or> HttpError.statusCode err = Some 0
        \<longrightarrow> ServerResponse.statusCode (handleError err res) = Some 500)
   \<and> (\<exists>c m. ended (handleError err res) = Some (JSON_stringify \<lparr>code = c, message = m\<rparr>))
   \<and> (getResponsePayload err = None \<longrightarrow>
        (\<exists>m. ended (handleError err res) = Some (JSON_stringify \<lparr>code = 500, message = m\<rparr>)
           \<and> m = (case stack err of None \<Rightarrow> HttpError.message err
                   | Some s \<Rightarrow> if s = [] then HttpError.message err else s)))
   \<and> (\<not> is_purge req \<and> match D (behaviors R) req = Inr (Some h)
        \<and> convertToCloudFrontEvent D req = Inr ev
        \<and> lifecycle_run D h ev (url req) (cacheService R) = (Inl err, c')
        \<longrightarrow> map_sum id response (handle_request D R req res) = Inr (handleError err res))"
proof -
  define pl where "pl =
    (case getResponsePayload err of
       Some p \<Rightarrow> p
     | None \<Rightarrow>
         \<lparr>code = 500,
          ResponsePayload.message =
            (case stack err of
               None \<Rightarrow> HttpError.message err
             | Some s \<Rightarrow> if s = [] then HttpError.message err else s)\<rparr>)"
  obtain c m where "pl = \<lparr>code = c, message = m\<rparr>"
    by (cases pl) auto
  then have body: "\<exists>c m. ended (handleError err res) = Some (JSON_stringify \<lparr>code = c, message = m\<rparr>)"
    by (auto simp: handleError_def pl_def)
  have status: "(\<forall>c. HttpError.statusCode err = Some c \<and> c \<noteq> 0
        \<longrightarrow> ServerResponse.statusCode (handleError err res) = Some c)
   \<and> (HttpError.statusCode err = None \<or> HttpError.statusCode err = Some 0
        \<longrightarrow> ServerResponse.statusCode (handleError err res) = Some 500)"
    by (auto simp: handleError_def)
  have literal: "getResponsePayload err = None \<longrightarrow>
        (\<exists>m. ended (handleError err res) = Some (JSON_stringify \<lparr>code = 500, message = m\<rparr>)
           \<and> m = (case stack err of None \<Rightarrow> HttpError.message err
                   | Some s \<Rightarrow> if s = [] then HttpError.message err else s))"
    by (simp add: handleError_def)
  have caught: "\<not> is_purge req \<and> match D (behaviors R) req = Inr (Some h)
        \<and> convertToCloudFrontEvent D req = Inr ev
        \<and> lifecycle_run D h ev (url req) (cacheService R) = (Inl err, c')
        \<longrightarrow> map_sum id response (handle_request D R req res) = Inr (handleError err res)"
    by (simp add: handle_request_def)
  from status body literal caught show ?thesis
    by blast
qed

theorem handleError_writes_witness:
  "ServerResponse.statusCode
     (handleError \<lparr>HttpError.statusCode = Some 502, message = ''origin unavailable'',
        stack = Some ''Error: origin unavailable'', getResponsePayload = None\<rparr> fresh_response)
     = Some 502
   \<and> ServerResponse.statusCode
     (handleError \<lparr>HttpError.statusCode = None, message = ''boom'',
        stack = None, getResponsePayload = None\<rparr> fresh_response)
     = Some 500
   \<and> ended (handleError \<lparr>HttpError.statusCode = None, message = ''boom'',
        stack = None, getResponsePayload = None\<rparr> fresh_response)
     = Some (JSON_stringify \<lparr>code = 500, message = ''boom''\<rparr>)
   \<and> map_sum id response
       (handle_request
          (example_deps\<lparr>lifecycle_run := \<lambda>h ev u c.
             (Inl \<lparr>HttpError.statusCode = Some 502, message = ''origin unavailable'',
                   stack = None, getResponsePayload = None\<rparr>, c)\<rparr>)
          (api_router\<lparr>behaviors := api_registry\<rparr>)
          \<lparr>req_method = Some ''GET'', url = Some ''/other''\<rparr> fresh_response)
     = Inr \<lparr>ServerResponse.statusCode = Some 502, statusMessage = None, setHeader_calls = [],
            ended = Some (JSON_stringify \<lparr>code = 500, message = ''origin unavailable''\<rparr>)\<rparr>"
proof -
  let ?e = "\<lparr>HttpError.statusCode = Some 502, message = ''origin unavailable'',
              stack = None, getResponsePayload = None\<rparr>"
  let ?D = "example_deps\<lparr>lifecycle_run := \<lambda>h ev u c. (Inl ?e, c)\<rparr>"
  let ?req = "\<lparr>req_method = Some ''GET'', url = Some ''/other''\<rparr>"
  let ?h = "\<lparr>pattern = ''*'', regex = glob_match ''*'', origin = None,
         viewerRequest = None, originRequest = None,
         originResponse = None, viewerResponse = None\<rparr>"
  have m: "match ?D (behaviors (api_router\<lparr>behaviors := api_registry\<rparr>)) ?req = Inr (Some ?h)"
    by (simp add: match_def example_deps_def pathname_examples api_registry_def)
  have v: "convertToCloudFrontEvent ?D ?req = Inr ()"
    by (simp add: example_deps_def)
  have l: "lifecycle_run ?D ?h () (url ?req)
       (cacheService (api_router\<lparr>behaviors := api_registry\<rparr>)) = (Inl ?e, 7)"
    by (simp add: api_router_def)
  from handleError_writes [of "\<lparr>HttpError.statusCode = Some 502, message = ''origin unavailable'',
        stack = Some ''Error: origin unavailable'', getResponsePayload = None\<rparr>" fresh_response]
    handleError_writes [of "\<lparr>HttpError.statusCode = None, message = ''boom'',
        stack = None, getResponsePayload = None\<rparr>" fresh_response]
    handleError_writes [of ?e fresh_response ?req ?D "api_router\<lparr>behaviors := api_registry\<rparr>" ?h
      "()" 7]
    m v l not_purge_GET [of "Some ''/other''"]
  show ?thesis
    by (simp add: handleError_def fresh_response_def)
qed

text \<open>
  C5. When the lifecycle of a request returns without a response, the request fails
  with the internal server error \<^verbatim>\<open>No response set after full request lifecycle\<close>: the
  response is the one \<open>handleError\<close> writes for that error, ended with a JSON error body;
  no header is set and the status message is left as it was.
\<close>

theorem no_response_fails:
  assumes "\<not> is_purge req"
    and "match D (behaviors R) req = Inr (Some h)"
    and "convertToCloudFrontEvent D req = Inr ev"
    and "lifecycle_run D h ev (url req) (cacheService R) = (Inr None, c)"
  shows "\<exists>out. handle_request D R req res = Inr out
     \<and> response out =
         handleError (InternalServerError D ''No response set after full request lifecycle'') res
     \<and> calls out = [Match, ConvertEvent, LifecycleRun, HandleError]
     \<and> setHeader_calls (response out) = setHeader_calls res
     \<and> statusMessage (response out) = statusMessage res
     \<and> (\<exists>p. ended (response out) = Some (JSON_stringify p))"
  using assms by (simp add: handle_request_def handleError_def)

theorem no_response_fails_witness:
  "\<exists>out. handle_request example_deps (api_router\<lparr>behaviors := api_registry\<rparr>)
       \<lparr>req_method = Some ''GET'', url = Some ''/other''\<rparr> fresh_response = Inr out
     \<and> ServerResponse.statusCode (response out) = Some 500
     \<and> ended (response out) = Some (JSON_stringify
          \<lparr>code = 500, message = ''No response set after full request lifecycle''\<rparr>)
     \<and> setHeader_calls (response out) = []"
proof -
  have l: "lifecycle_run example_deps
       \<lparr>pattern = ''*'', regex = glob_match ''*'', origin = None,
         viewerRequest = None, originRequest = None,
         originResponse = None, viewerResponse = None\<rparr>
       ()
       (url \<lparr>req_method = Some ''GET'', url = Some ''/other''\<rparr>)
       (cacheService (api_router\<lparr>behaviors := api_registry\<rparr>)) = (Inr None, 7)"
    by (simp add: example_deps_def api_router_def)
  have m: "match example_deps (behaviors (api_router\<lparr>behaviors := api_registry\<rparr>))
       \<lparr>req_method = Some ''GET'', url = Some ''/other''\<rparr>
     = Inr (Some \<lparr>pattern = ''*'', regex = glob_match ''*'', origin = None,
         viewerRequest = None, originRequest = None,
         originResponse = None, viewerResponse = None\<rparr>)"
    by (simp add: match_api_other)
  from no_response_fails [OF not_purge_GET m convert_example(1) l, of fresh_response]
  show ?thesis
    by (auto simp: handleError_def example_deps_def fresh_response_def)
qed

text \<open>
  C6, as amended. When resolution yields no behavior and the conversion of the request
  to an event (line 100, before the test of the behavior and outside the \<^verbatim>\<open>try\<close>) does
  not throw, the response has status 404 and is ended without a body: no JSON is
  written, the lifecycle is not run and the router is unchanged. When the conversion
  throws, its error leaves the handler and no response is written.
\<close>

theorem no_behavior_404:
  assumes "\<not> is_purge req" and "match D (behaviors R) req = Inr None"
  shows "(\<forall>ev. convertToCloudFrontEvent D req = Inr ev \<longrightarrow>
            handle_request D R req res =
              Inr \<lparr>response = res\<lparr>ServerResponse.statusCode := Some 404, ended := Some NoBody\<rparr>,
                   router_after = R,
                   calls = [Match, ConvertEvent]\<rparr>)
    \<and> (\<forall>e. convertToCloudFrontEvent D req = Inl e \<longrightarrow> handle_request D R req res = Inl e)"
  using assms by (simp add: handle_request_def)

lemma match_no_url:
  "match D bs \<lparr>req_method = m, url = None\<rparr> = Inr None"
  "match D bs \<lparr>req_method = m, url = Some []\<rparr> = Inr None"
  by (simp_all add: match_def)

theorem no_behavior_404_witness:
  "handle_request example_deps (api_router\<lparr>behaviors := api_registry\<rparr>)
     \<lparr>req_method = Some ''GET'', url = Some []\<rparr> fresh_response =
   Inr \<lparr>response = \<lparr>ServerResponse.statusCode = Some 404, statusMessage = None,
                      setHeader_calls = [], ended = Some NoBody\<rparr>,
        router_after = api_router\<lparr>behaviors := api_registry\<rparr>,
        calls = [Match, ConvertEvent]\<rparr>
   \<and> handle_request example_deps (api_router\<lparr>behaviors := api_registry\<rparr>)
     \<lparr>req_method = Some ''GET'', url = None\<rparr> fresh_response =
     Inl (TypeError ''The url argument must be of type string'')"
  using no_behavior_404 [OF not_purge_GET match_no_url(2), of example_deps
      "api_router\<lparr>behaviors := api_registry\<rparr>" fresh_response]
    no_behavior_404 [OF not_purge_GET match_no_url(1), of example_deps
      "api_router\<lparr>behaviors := api_registry\<rparr>" fresh_response]
  by (simp add: convert_example fresh_response_def)

theorem no_behavior_empty_body_counterexample:
  "extractBehaviors example_deps api_router = Inr (api_router\<lparr>behaviors := api_registry\<rparr>)
   \<and> match example_deps api_registry \<lparr>req_method = Some ''GET'', url = Some []\<rparr> = Inr None
   \<and> map_sum id (\<lambda>out. (ServerResponse.statusCode (response out), ended (response out)))
       (handle_request example_deps (api_router\<lparr>behaviors := api_registry\<rparr>)
          \<lparr>req_method = Some ''GET'', url = Some []\<rparr> fresh_response)
     = Inr (Some 404, Some NoBody)
   \<and> match example_deps api_registry \<lparr>req_method = Some ''GET'', url = None\<rparr> = Inr None
   \<and> handle_request example_deps (api_router\<lparr>behaviors := api_registry\<rparr>)
          \<lparr>req_method = Some ''GET'', url = None\<rparr> fresh_response
     = Inl (TypeError ''The url argument must be of type string'')"
  by (simp add: extract_api match_no_url handle_request_def not_purge_GET convert_example
      fresh_response_def)

subsection \<open>The headers of a response\<close>

lemma set_headers_prefix:
  "set_headers D hs res = (e, res') \<Longrightarrow>
     \<exists>n. setHeader_calls res' = setHeader_calls res @ take n (filter (\<lambda>(k, v). truthy v) hs)"
proof (induction hs arbitrary: res)
  case Nil
  then show ?case by simp
next
  case (Cons a hs)
  obtain k v where a: "a = (k, v)" by (cases a)
  show ?case
  proof (cases "truthy v")
    case False
    with Cons.prems a have "set_headers D hs res = (e, res')" by simp
    from Cons.IH [OF this] False a show ?thesis by simp
  next
    case True
    show ?thesis
    proof (cases "setHeader_error D k v")
      case (Some err)
      with Cons.prems a True have "res' = res" by simp
      then have "setHeader_calls res' =
          setHeader_calls res @ take 0 (filter (\<lambda>(k, v). truthy v) (a # hs))"
        by simp
      then show ?thesis by blast
    next
      case None
      with Cons.prems a True have "set_headers D hs (setHeader res k v) = (e, res')" by simp
      from Cons.IH [OF this] obtain n where
        "setHeader_calls res' =
           setHeader_calls (setHeader res k v) @ take n (filter (\<lambda>(k, v). truthy v) hs)"
        by blast
      with True a have "setHeader_calls res' =
          setHeader_calls res @ take (Suc n) (filter (\<lambda>(k, v). truthy v) (a # hs))"
        by (simp add: setHeader_def)
      then show ?thesis by blast
    qed
  qed
qed

lemma set_headers_all:
  "\<forall>(k, v) \<in> set hs. truthy v \<longrightarrow> setHeader_error D k v = None \<Longrightarrow>
     \<exists>res'. set_headers D hs res = (None, res') \<and>
       setHeader_calls res' = setHeader_calls res @ filter (\<lambda>(k, v). truthy v) hs"
proof (induction hs arbitrary: res)
  case Nil
  then show ?case by simp
next
  case (Cons a hs)
  obtain k v where a: "a = (k, v)" by (cases a)
  from Cons.prems have rest: "\<forall>(k, v) \<in> set hs. truthy v \<longrightarrow> setHeader_error D k v = None"
    by simp
  show ?case
  proof (cases "truthy v")
    case False
    with Cons.IH [OF rest, of res] a show ?thesis by simp
  next
    case True
    with Cons.prems a have "setHeader_error D k v = None" by simp
    with Cons.IH [OF rest, of "setHeader res k v"] True a show ?thesis
      by (auto simp: setHeader_def)
  qed
qed

lemma handleError_headers: "setHeader_calls (handleError err res) = setHeader_calls res"
  by (simp add: handleError_def)

lemma write_response_prefix:
  assumes "asHttpHeaders D (headers resp) = Inr hs" and "write_response D resp res = (e, res')"
  shows "\<exists>n. setHeader_calls res' = setHeader_calls res @ take n (filter (\<lambda>(k, v). truthy v) hs)"
proof -
  let ?res1 = "res\<lparr>ServerResponse.statusCode := parseInt D (status resp),
                   statusMessage :=
                     Some (case statusDescription resp of None \<Rightarrow> [] | Some d \<Rightarrow> d)\<rparr>"
  obtain e2 res2 where s: "set_headers D hs ?res1 = (e2, res2)"
    by (cases "set_headers D hs ?res1")
  from set_headers_prefix [OF s] obtain n where
    n: "setHeader_calls res2 = setHeader_calls res @ take n (filter (\<lambda>(k, v). truthy v) hs)"
    by auto
  from assms s have "setHeader_calls res' = setHeader_calls res2"
    by (auto simp: write_response_def Let_def split: option.splits)
  with n show ?thesis by auto
qed

lemma write_response_all:
  assumes "asHttpHeaders D (headers resp) = Inr hs" and "write_response D resp res = (e, res')"
    and "\<forall>(k, v) \<in> set hs. truthy v \<longrightarrow> setHeader_error D k v = None"
  shows "setHeader_calls res' = setHeader_calls res @ filter (\<lambda>(k, v). truthy v) hs"
proof -
  let ?res1 = "res\<lparr>ServerResponse.statusCode := parseInt D (status resp),
                   statusMessage :=
                     Some (case statusDescription resp of None \<Rightarrow> [] | Some d \<Rightarrow> d)\<rparr>"
  from set_headers_all [OF assms(3), of ?res1] obtain res2 where
    s: "set_headers D hs ?res1 = (None, res2)"
    and n: "setHeader_calls res2 = setHeader_calls res @ filter (\<lambda>(k, v). truthy v) hs"
    by auto
  from assms(1,2) s have "setHeader_calls res' = setHeader_calls res2"
    by (auto simp: write_response_def Let_def split: option.splits)
  with n show ?thesis by simp
qed

text \<open>
  C10, as amended. When the lifecycle returns a response, a header for which
  \<^verbatim>\<open>asHttpHeaders\<close> yields a falsy value (\<^verbatim>\<open>undefined\<close>, \<^verbatim>\<open>null\<close> or the empty string) is
  left out without an error, and only headers with a truthy value are set: the headers
  set are, in order, the truthy ones up to the first that \<^verbatim>\<open>setHeader\<close> refuses, all of
  them when none is refused, and none when \<^verbatim>\<open>asHttpHeaders\<close> throws. An array of values is
  truthy and is set, whatever it holds.
\<close>

theorem headers_set_by_truthiness:
  assumes "\<not> is_purge req"
    and "match D (behaviors R) req = Inr (Some h)"
    and "convertToCloudFrontEvent D req = Inr ev"
    and "lifecycle_run D h ev (url req) (cacheService R) = (Inr (Some resp), c)"
  shows "\<exists>out. handle_request D R req res = Inr out
     \<and> (\<forall>hs. asHttpHeaders D (headers resp) = Inr hs \<longrightarrow>
          (\<exists>n. setHeader_calls (response out) =
                 setHeader_calls res @ take n (filter (\<lambda>(k, v). truthy v) hs))
          \<and> ((\<forall>(k, v) \<in> set hs. truthy v \<longrightarrow> setHeader_error D k v = None) \<longrightarrow>
               setHeader_calls (response out) =
                 setHeader_calls res @ filter (\<lambda>(k, v). truthy v) hs)
          \<and> (\<forall>(k, v) \<in> set (drop (length (setHeader_calls res))
                                (setHeader_calls (response out))).
               (k, v) \<in> set hs \<and> v \<noteq> Undefined \<and> v \<noteq> Null \<and> v \<noteq> Str []))
     \<and> (\<forall>err. asHttpHeaders D (headers resp) = Inl err \<longrightarrow>
          setHeader_calls (response out) = setHeader_calls res)"
proof -
  obtain e res' where w: "write_response D resp res = (e, res')"
    by (cases "write_response D resp res")
  define out where "out =
    \<lparr>response = (case e of None \<Rightarrow> res' | Some err \<Rightarrow> handleError err res'),
     router_after = R\<lparr>cacheService := c\<rparr>,
     calls = (case e of None \<Rightarrow> [Match, ConvertEvent, LifecycleRun]
              | Some err \<Rightarrow> [Match, ConvertEvent, LifecycleRun, HandleError])\<rparr>"
  from assms w have run: "handle_request D R req res = Inr out"
    by (simp add: handle_request_def out_def split: option.splits)
  have same: "setHeader_calls (response out) = setHeader_calls res'"
    by (simp add: out_def handleError_headers split: option.splits)
  have yields: "(\<exists>n. setHeader_calls (response out) =
                 setHeader_calls res @ take n (filter (\<lambda>(k, v). truthy v) hs))
          \<and> ((\<forall>(k, v) \<in> set hs. truthy v \<longrightarrow> setHeader_error D k v = None) \<longrightarrow>
               setHeader_calls (response out) =
                 setHeader_calls res @ filter (\<lambda>(k, v). truthy v) hs)
          \<and> (\<forall>(k, v) \<in> set (drop (length (setHeader_calls res))
                                (setHeader_calls (response out))).
               (k, v) \<in> set hs \<and> v \<noteq> Undefined \<and> v \<noteq> Null \<and> v \<noteq> Str [])"
    if a: "asHttpHeaders D (headers resp) = Inr hs" for hs
  proof -
    from write_response_prefix [OF a w] obtain n where
      n: "setHeader_calls res' = setHeader_calls res @ take n (filter (\<lambda>(k, v). truthy v) hs)"
      by auto
    have only: "\<forall>(k, v) \<in> set (drop (length (setHeader_calls res))
                                (setHeader_calls (response out))).
          (k, v) \<in> set hs \<and> v \<noteq> Undefined \<and> v \<noteq> Null \<and> v \<noteq> Str []"
    proof (clarify, intro conjI)
      fix k v
      assume "(k, v) \<in> set (drop (length (setHeader_calls res)) (setHeader_calls (response out)))"
      with same n have "(k, v) \<in> set (take n (filter (\<lambda>(k, v). truthy v) hs))"
        by simp
      then have "(k, v) \<in> set (filter (\<lambda>(k, v). truthy v) hs)"
        by (rule in_set_takeD)
      then have kv: "(k, v) \<in> set hs" and t: "truthy v"
        by auto
      from kv show "(k, v) \<in> set hs" .
      from t show "v \<noteq> Undefined" by auto
      from t show "v \<noteq> Null" by auto
      from t show "v \<noteq> Str []" by auto
    qed
    have full: "(\<forall>(k, v) \<in> set hs. truthy v \<longrightarrow> setHeader_error D k v = None) \<longrightarrow>
          setHeader_calls (response out) =
            setHeader_calls res @ filter (\<lambda>(k, v). truthy v) hs"
      using write_response_all [OF a w] same by simp
    from same n only full show ?thesis
      by auto
  qed
  have throws: "setHeader_calls (response out) = setHeader_calls res"
    if "asHttpHeaders D (headers resp) = Inl err" for err
    using that w same by (auto simp: write_response_def Let_def)
  from run yields throws show ?thesis
    by blast
qed

theorem headers_set_by_truthiness_witness:
  "\<exists>out. handle_request (example_deps\<lparr>asHttpHeaders := single_valued\<rparr>)
       (example_router\<lparr>behaviors := example_registry\<rparr>)
       \<lparr>req_method = Some ''GET'', url = Some ''/api/users''\<rparr> fresh_response = Inr out
     \<and> setHeader_calls (response out) =
         [(''content-type'', Str ''text/plain''), (''set-cookie'', Arr [])]"
proof -
  let ?D = "example_deps\<lparr>asHttpHeaders := single_valued\<rparr>"
  let ?req = "\<lparr>req_method = Some ''GET'', url = Some ''/api/users''\<rparr>"
  let ?h = "\<lparr>pattern = ''*'', regex = glob_match ''*'', origin = None,
         viewerRequest = Some ''src/default.viewer'', originRequest = None,
         originResponse = None, viewerResponse = None\<rparr>"
  let ?hs = "[(''content-type'', Str ''text/plain''), (''x-empty'', Str []),
          (''x-absent'', Undefined), (''x-null'', Null), (''set-cookie'', Arr [])]"
  have m: "match ?D (behaviors (example_router\<lparr>behaviors := example_registry\<rparr>)) ?req
      = Inr (Some ?h)"
    by (simp add: match_def example_deps_def pathname_examples example_registry_def)
  have v: "convertToCloudFrontEvent ?D ?req = Inr ()"
    by (simp add: example_deps_def)
  have l: "lifecycle_run ?D ?h () (url ?req)
       (cacheService (example_router\<lparr>behaviors := example_registry\<rparr>))
     = (Inr (Some hello_response), 7)"
    by (simp add: example_deps_def example_router_def)
  have a: "asHttpHeaders ?D (headers hello_response) = Inr ?hs"
    by (simp add: single_valued_def)
  have ok: "\<forall>(k, v) \<in> set ?hs. truthy v \<longrightarrow> setHeader_error ?D k v = None"
    by (simp add: example_deps_def)
  from headers_set_by_truthiness [OF not_purge_GET m v l, of fresh_response] obtain out where
    run: "handle_request ?D (example_router\<lparr>behaviors := example_registry\<rparr>) ?req fresh_response
        = Inr out"
    and all: "\<forall>hs. asHttpHeaders ?D (headers hello_response) = Inr hs \<longrightarrow>
          ((\<forall>(k, v) \<in> set hs. truthy v \<longrightarrow> setHeader_error ?D k v = None) \<longrightarrow>
               setHeader_calls (response out) =
                 setHeader_calls fresh_response @ filter (\<lambda>(k, v). truthy v) hs)"
    by blast
  from all a ok have "setHeader_calls (response out) =
      setHeader_calls fresh_response @ filter (\<lambda>(k, v). truthy v) ?hs"
    by blast
  then have "setHeader_calls (response out) =
      [(''content-type'', Str ''text/plain''), (''set-cookie'', Arr [])]"
    by (simp add: fresh_response_def)
  with run show ?thesis by blast
qed

theorem empty_header_set_counterexample:
  "asHttpHeaders example_deps (headers hello_response) =
     Inr [(''content-type'', Arr [''text/plain'']), (''x-empty'', Arr [[]]),
          (''x-served-by'', Arr [''edge''])]
   \<and> map_sum id (\<lambda>out. setHeader_calls (response out))
       (handle_request example_deps (example_router\<lparr>behaviors := example_registry\<rparr>)
          \<lparr>req_method = Some ''GET'', url = Some ''/api/users''\<rparr> fresh_response)
     = Inr [(''content-type'', Arr [''text/plain'']), (''x-empty'', Arr [[]]),
            (''x-served-by'', Arr [''edge''])]"
proof -
  have a: "asHttpHeaders example_deps (headers hello_response) =
     Inr [(''content-type'', Arr [''text/plain'']), (''x-empty'', Arr [[]]),
          (''x-served-by'', Arr [''edge''])]"
    by (simp add: example_deps_def multi_valued_def hello_response_def)
  have l: "lifecycle_run example_deps
       \<lparr>pattern = ''*'', regex = glob_match ''*'', origin = None,
         viewerRequest = Some ''src/default.viewer'', originRequest = None,
         originResponse = None, viewerResponse = None\<rparr> ()
       (Some ''/api/users'') 7 = (Inr (Some hello_response), 7)"
    by (simp add: example_deps_def)
  have s: "setHeader_error example_deps k v = (if k = [] then Some invalid_token else None)" for k v
    by (simp add: example_deps_def)
  have p: "parseInt example_deps (status hello_response) = Some 200"
    by (simp add: example_deps_def hello_response_def)
  have e: "end_error example_deps res b =
      (if ServerResponse.statusCode res = None then Some invalid_status else None)" for res b
    by (simp add: example_deps_def)
  have c: "cacheService (example_router\<lparr>behaviors := example_registry\<rparr>) = 7"
    by (simp add: example_router_def)
  show ?thesis
    by (simp add: a handle_request_def not_purge_GET match_example_api convert_example l c
        write_response_def s p e setHeader_def fresh_response_def Let_def)
qed

text \<open>
  C2, evaluated where it fails. The first function of the example configuration has no
  path pattern, so \<^verbatim>\<open>'*'\<close> is the first entry of the registry; the behavior \<^verbatim>\<open>/api/*\<close> is
  registered after it and its matcher accepts \<^verbatim>\<open>/api/users\<close>, but the loop of \<open>match\<close>
  tests the entry of \<^verbatim>\<open>'*'\<close> first and returns it.
\<close>

theorem wildcard_first_shadows:
  "extractBehaviors example_deps example_router
     = Inr (example_router\<lparr>behaviors := example_registry\<rparr>)
   \<and> map fst example_registry = [''*'', ''/api/*'']
   \<and> map_option (\<lambda>h. regex h ''/api/users'') (Map_get example_registry ''/api/*'') = Some True
   \<and> map_sum id (map_option pattern)
       (match example_deps example_registry \<lparr>req_method = Some ''GET'', url = Some ''/api/users''\<rparr>)
     = Inr (Some ''*'')"
  by (simp add: extract_example match_example_api) (simp add: example_registry_def Map_get_def)

subsection \<open>The registry a build leaves\<close>


lemma pattern_setHandler: "pattern (setHandler h e p) = pattern h"
  by (cases e) simp_all

lemma register_def_Inr:
  assumes "register_def D orig base d bs = Inr bs1"
  obtains lae fnSet bs0 where "lambdaAtEdge d = Some lae"
    and "Map_has bs (pattern_of lae) \<and> bs0 = bs \<or>
         \<not> Map_has bs (pattern_of lae) \<and>
           (\<exists>rx. bs0 = Map_set bs (pattern_of lae)
              \<lparr>pattern = pattern_of lae, regex = rx, origin = orig (pattern_of lae),
               viewerRequest = None, originRequest = None,
               originResponse = None, viewerResponse = None\<rparr>)"
    and "Map_get bs0 (pattern_of lae) = Some fnSet"
    and "bs1 = Map_set bs0 (pattern_of lae)
           (setHandler fnSet (eventType lae) (path_join D base (handler d)))"
  using assms unfolding register_def_def
  by (auto simp: Let_def FunctionSet_new_def split: option.splits sum.splits if_splits)



lemma register_def_distinct:
  assumes "register_def D orig base d bs = Inr bs1" and "distinct (map fst bs)"
  shows "distinct (map fst bs1)"
proof -
  from assms(1) obtain lae fnSet bs0 where
    0: "Map_has bs (pattern_of lae) \<and> bs0 = bs \<or>
         \<not> Map_has bs (pattern_of lae) \<and>
           (\<exists>rx. bs0 = Map_set bs (pattern_of lae)
              \<lparr>pattern = pattern_of lae, regex = rx, origin = orig (pattern_of lae),
               viewerRequest = None, originRequest = None,
               originResponse = None, viewerResponse = None\<rparr>)"
    and 1: "bs1 = Map_set bs0 (pattern_of lae)
           (setHandler fnSet (eventType lae) (path_join D base (handler d)))"
    by (rule register_def_Inr)
  from 0 assms(2) have "distinct (map fst bs0)"
    by (auto intro: distinct_Map_set)
  with 1 show ?thesis
    by (simp add: distinct_Map_set)
qed

lemma in_set_Map_get: "(k, h) \<in> set m \<Longrightarrow> distinct (map fst m) \<Longrightarrow> Map_get m k = Some h"
  by (simp add: Map_get_def)

lemma Map_get_in_set: "Map_get m k = Some h \<Longrightarrow> (k, h) \<in> set m"
  by (simp add: Map_get_def map_of_SomeD)

lemma register_def_pattern:
  assumes "register_def D orig base d bs = Inr bs1"
    and "\<forall>(k, h) \<in> set bs. pattern h = k"
  shows "\<forall>(k, h) \<in> set bs1. pattern h = k"
proof -
  from assms(1) obtain lae fnSet bs0 where
    0: "Map_has bs (pattern_of lae) \<and> bs0 = bs \<or>
         \<not> Map_has bs (pattern_of lae) \<and>
           (\<exists>rx. bs0 = Map_set bs (pattern_of lae)
              \<lparr>pattern = pattern_of lae, regex = rx, origin = orig (pattern_of lae),
               viewerRequest = None, originRequest = None,
               originResponse = None, viewerResponse = None\<rparr>)"
    and g: "Map_get bs0 (pattern_of lae) = Some fnSet"
    and 1: "bs1 = Map_set bs0 (pattern_of lae)
           (setHandler fnSet (eventType lae) (path_join D base (handler d)))"
    by (rule register_def_Inr)
  have inv0: "\<forall>(k, h) \<in> set bs0. pattern h = k"
  proof (rule disjE [OF 0])
    assume "Map_has bs (pattern_of lae) \<and> bs0 = bs"
    with assms(2) show ?thesis by simp
  next
    assume "\<not> Map_has bs (pattern_of lae) \<and>
           (\<exists>rx. bs0 = Map_set bs (pattern_of lae)
              \<lparr>pattern = pattern_of lae, regex = rx, origin = orig (pattern_of lae),
               viewerRequest = None, originRequest = None,
               originResponse = None, viewerResponse = None\<rparr>)"
    then obtain rx where "bs0 = Map_set bs (pattern_of lae)
              \<lparr>pattern = pattern_of lae, regex = rx, origin = orig (pattern_of lae),
               viewerRequest = None, originRequest = None,
               originResponse = None, viewerResponse = None\<rparr>"
      by blast
    with assms(2) set_Map_set [of bs "pattern_of lae"] show ?thesis
      by fastforce
  qed
  from g have "pattern fnSet = pattern_of lae"
    using inv0 by (auto dest: Map_get_in_set)
  with inv0 1 set_Map_set [of bs0 "pattern_of lae"] show ?thesis
    by (fastforce simp: pattern_setHandler)
qed




lemma register_all_distinct:
  "register_all D orig base defs bs = Inr bs' \<Longrightarrow> distinct (map fst bs) \<Longrightarrow>
     distinct (map fst bs')"
proof (induction defs arbitrary: bs)
  case Nil
  then show ?case by simp
next
  case (Cons d defs)
  from Cons.prems(1) obtain bs1 where 1: "register_def D orig base d bs = Inr bs1"
    and 2: "register_all D orig base defs bs1 = Inr bs'"
    by (auto split: sum.splits)
  from Cons.IH [OF 2 register_def_distinct [OF 1 Cons.prems(2)]] show ?case .
qed

lemma register_all_pattern:
  "register_all D orig base defs bs = Inr bs' \<Longrightarrow> \<forall>(k, h) \<in> set bs. pattern h = k \<Longrightarrow>
     \<forall>(k, h) \<in> set bs'. pattern h = k"
proof (induction defs arbitrary: bs)
  case Nil
  then show ?case by simp
next
  case (Cons d defs)
  from Cons.prems(1) obtain bs1 where 1: "register_def D orig base d bs = Inr bs1"
    and 2: "register_all D orig base defs bs1 = Inr bs'"
    by (auto split: sum.splits)
  from Cons.IH [OF 2 register_def_pattern [OF 1 Cons.prems(2)]] show ?case .
qed




lemma extractBehaviors_Inr:
  assumes "extractBehaviors D R = Inr R'"
  obtains bs where
    "register_all D (origins R) (path R) (lambdaDefs (service_functions R)) [] = Inr bs"
    and "R' = R\<lparr>behaviors := behaviors R'\<rparr>"
    and "Map_has bs ''*'' \<and> behaviors R' = bs \<or>
         \<not> Map_has bs ''*'' \<and>
           (\<exists>rx. globToRegExp D ''*'' = Some rx \<and>
              behaviors R' = Map_set bs ''*''
                \<lparr>pattern = ''*'', regex = rx, origin = origins R ''*'',
                 viewerRequest = None, originRequest = None,
                 originResponse = None, viewerResponse = None\<rparr>)"
  using assms unfolding extractBehaviors_def Map_clear_def
  by (auto simp: FunctionSet_new_def split: sum.splits if_splits option.splits)

subsection \<open>Resolution after a build\<close>

lemma build_distinct:
  assumes "extractBehaviors D R = Inr R'"
  shows "distinct (map fst (behaviors R'))"
proof -
  from assms obtain bs where
    loop: "register_all D (origins R) (path R) (lambdaDefs (service_functions R)) [] = Inr bs"
    and fin: "Map_has bs ''*'' \<and> behaviors R' = bs \<or>
         \<not> Map_has bs ''*'' \<and>
           (\<exists>rx. globToRegExp D ''*'' = Some rx \<and>
              behaviors R' = Map_set bs ''*''
                \<lparr>pattern = ''*'', regex = rx, origin = origins R ''*'',
                 viewerRequest = None, originRequest = None,
                 originResponse = None, viewerResponse = None\<rparr>)"
    by (rule extractBehaviors_Inr)
  have "distinct (map fst bs)"
    using register_all_distinct [OF loop] by simp
  with fin show ?thesis
    by (auto intro: distinct_Map_set)
qed

lemma build_pattern:
  assumes "extractBehaviors D R = Inr R'"
  shows "\<forall>(k, h) \<in> set (behaviors R'). pattern h = k"
proof -
  from assms obtain bs where
    loop: "register_all D (origins R) (path R) (lambdaDefs (service_functions R)) [] = Inr bs"
    and fin: "Map_has bs ''*'' \<and> behaviors R' = bs \<or>
         \<not> Map_has bs ''*'' \<and>
           (\<exists>rx. globToRegExp D ''*'' = Some rx \<and>
              behaviors R' = Map_set bs ''*''
                \<lparr>pattern = ''*'', regex = rx, origin = origins R ''*'',
                 viewerRequest = None, originRequest = None,
                 originResponse = None, viewerResponse = None\<rparr>)"
    by (rule extractBehaviors_Inr)
  have pat_bs: "\<forall>(k, h) \<in> set bs. pattern h = k"
    using register_all_pattern [OF loop] by simp
  show ?thesis
  proof (rule disjE [OF fin])
    assume "Map_has bs ''*'' \<and> behaviors R' = bs"
    with pat_bs show ?thesis by simp
  next
    assume "\<not> Map_has bs ''*'' \<and>
           (\<exists>rx. globToRegExp D ''*'' = Some rx \<and>
              behaviors R' = Map_set bs ''*''
                \<lparr>pattern = ''*'', regex = rx, origin = origins R ''*'',
                 viewerRequest = None, originRequest = None,
                 originResponse = None, viewerResponse = None\<rparr>)"
    then obtain rx where "behaviors R' = Map_set bs ''*''
                \<lparr>pattern = ''*'', regex = rx, origin = origins R ''*'',
                 viewerRequest = None, originRequest = None,
                 originResponse = None, viewerResponse = None\<rparr>"
      by blast
    with pat_bs set_Map_set [of bs "''*''"] show ?thesis
      by fastforce
  qed
qed

lemma star_after_build:
  assumes "extractBehaviors D R = Inr R'"
  shows "\<exists>h. Map_get (behaviors R') ''*'' = Some h \<and> pattern h = ''*''"
proof -
  from assms have "Map_has (behaviors R') ''*''"
    by (auto simp: extractBehaviors_def Map_has_Map_set split: sum.splits if_splits)
  then obtain h where h: "Map_get (behaviors R') ''*'' = Some h"
    by (auto simp: Map_has_get)
  then have "(''*'', h) \<in> set (behaviors R')"
    by (rule Map_get_in_set)
  with build_pattern [OF assms] have "pattern h = ''*''"
    by auto
  with h show ?thesis by simp
qed

lemma first_match_None: "first_match bs p = None \<Longrightarrow> \<forall>h \<in> snd ` set bs. \<not> regex h p"
  by (induction bs) (force split: if_splits)+

lemma first_match_Some:
  "first_match bs p = Some h \<Longrightarrow>
     \<exists>i < length bs. snd (bs ! i) = h \<and> regex h p \<and> (\<forall>j < i. \<not> regex (snd (bs ! j)) p)"
proof (induction bs)
  case Nil
  then show ?case by simp
next
  case (Cons a bs)
  obtain k h' where a: "a = (k, h')" by (cases a)
  show ?case
  proof (cases "regex h' p")
    case True
    with Cons.prems a have "h' = h" by simp
    with True a have "0 < length (a # bs) \<and> snd ((a # bs) ! 0) = h \<and> regex h p \<and>
        (\<forall>j < 0. \<not> regex (snd ((a # bs) ! j)) p)"
      by simp
    then show ?thesis by blast
  next
    case False
    with Cons.prems a have "first_match bs p = Some h" by simp
    from Cons.IH [OF this] obtain i where i: "i < length bs" "snd (bs ! i) = h" "regex h p"
      "\<forall>j < i. \<not> regex (snd (bs ! j)) p"
      by blast
    have "\<forall>j < Suc i. \<not> regex (snd ((a # bs) ! j)) p"
    proof (intro allI impI)
      fix j assume "j < Suc i"
      with i(4) False a show "\<not> regex (snd ((a # bs) ! j)) p"
        by (cases j) auto
    qed
    with i have "Suc i < length (a # bs) \<and> snd ((a # bs) ! Suc i) = h \<and> regex h p \<and>
        (\<forall>j < Suc i. \<not> regex (snd ((a # bs) ! j)) p)"
      by simp
    then show ?thesis by blast
  qed
qed

text \<open>
  C1, as amended. After the registry has been built, \<open>match\<close> returns a behavior, and
  not \<^verbatim>\<open>null\<close>, for every request whose URL is present, not empty and accepted by the URL
  constructor: if no non-wildcard pattern matches the path, the result is the \<^verbatim>\<open>'*'\<close>
  behavior, which exists after the build. The behavior returned is the first entry, in
  registration order, whose matcher accepts the path, and the entry of \<^verbatim>\<open>'*'\<close> when no
  matcher accepts it. A request whose URL is absent or empty is answered \<^verbatim>\<open>null\<close>, and
  one whose URL the constructor refuses makes \<open>match\<close> throw.
\<close>

theorem match_after_build:
  assumes "extractBehaviors D R = Inr R'"
  shows "(url req = None \<or> url req = Some [] \<longrightarrow> match D (behaviors R') req = Inr None)
    \<and> (\<forall>u. url req = Some u \<and> u \<noteq> [] \<and> URL_pathname D u = None \<longrightarrow>
          match D (behaviors R') req = Inl (TypeError ''Invalid URL''))
    \<and> (\<forall>u p. url req = Some u \<and> u \<noteq> [] \<and> URL_pathname D u = Some p \<longrightarrow>
          (\<exists>h. match D (behaviors R') req = Inr (Some h)
             \<and> ((\<forall>(k, h') \<in> set (behaviors R'). k \<noteq> ''*'' \<longrightarrow> \<not> regex h' p) \<longrightarrow>
                  Map_get (behaviors R') ''*'' = Some h)
             \<and> ((\<exists>i < length (behaviors R').
                     snd (behaviors R' ! i) = h \<and> regex h p \<and>
                     (\<forall>j < i. \<not> regex (snd (behaviors R' ! j)) p))
                  \<or> (\<forall>h' \<in> snd ` set (behaviors R'). \<not> regex h' p) \<and>
                    Map_get (behaviors R') ''*'' = Some h)))
    \<and> (\<exists>h. Map_get (behaviors R') ''*'' = Some h \<and> pattern h = ''*'')"
proof (intro conjI allI impI)
  assume "url req = None \<or> url req = Some []"
  then show "match D (behaviors R') req = Inr None"
    by (auto simp: match_def)
next
  fix u assume "url req = Some u \<and> u \<noteq> [] \<and> URL_pathname D u = None"
  then show "match D (behaviors R') req = Inl (TypeError ''Invalid URL'')"
    by (simp add: match_def)
next
  show "\<exists>h. Map_get (behaviors R') ''*'' = Some h \<and> pattern h = ''*''"
    by (rule star_after_build [OF assms])
next
  fix u p assume u: "url req = Some u \<and> u \<noteq> [] \<and> URL_pathname D u = Some p"
  let ?bs = "behaviors R'"
  from star_after_build [OF assms] obtain s where s: "Map_get ?bs ''*'' = Some s"
    by blast
  show "\<exists>h. match D ?bs req = Inr (Some h)
      \<and> ((\<forall>(k, h') \<in> set ?bs. k \<noteq> ''*'' \<longrightarrow> \<not> regex h' p) \<longrightarrow> Map_get ?bs ''*'' = Some h)
      \<and> ((\<exists>i < length ?bs. snd (?bs ! i) = h \<and> regex h p \<and>
             (\<forall>j < i. \<not> regex (snd (?bs ! j)) p))
          \<or> (\<forall>h' \<in> snd ` set ?bs. \<not> regex h' p) \<and> Map_get ?bs ''*'' = Some h)"
  proof (cases "first_match ?bs p")
    case None
    with u s have m: "match D ?bs req = Inr (Some s)"
      by (simp add: match_def)
    from first_match_None [OF None] m s show ?thesis
      by blast
  next
    case (Some h)
    with u have m: "match D ?bs req = Inr (Some h)"
      by (simp add: match_def)
    from first_match_Some [OF Some] obtain i where i: "i < length ?bs" "snd (?bs ! i) = h"
      "regex h p" "\<forall>j < i. \<not> regex (snd (?bs ! j)) p"
      by blast
    have fallback: "Map_get ?bs ''*'' = Some h"
      if none: "\<forall>(k, h') \<in> set ?bs. k \<noteq> ''*'' \<longrightarrow> \<not> regex h' p"
    proof -
      from i(1) have mem: "?bs ! i \<in> set ?bs" by simp
      obtain k where k: "?bs ! i = (k, h)"
        using i(2) by (cases "?bs ! i") auto
      with mem none i(3) have "k = ''*''" by auto
      with mem k have "(''*'', h) \<in> set ?bs" by simp
      then show ?thesis
        using build_distinct [OF assms] by (rule in_set_Map_get)
    qed
    from m i fallback show ?thesis
      by blast
  qed
qed

theorem match_after_build_witness:
  "(\<exists>h. match example_deps api_registry \<lparr>req_method = Some ''GET'', url = Some ''/other''\<rparr>
          = Inr (Some h)
        \<and> Map_get api_registry ''*'' = Some h \<and> pattern h = ''*'')
   \<and> (\<exists>h. match example_deps api_registry \<lparr>req_method = Some ''GET'', url = Some ''/api/users''\<rparr>
          = Inr (Some h)
        \<and> pattern h = ''/api/*'')"
proof -
  have p1: "URL_pathname example_deps ''/other'' = Some ''/other''"
    by (simp add: example_deps_def pathname_examples)
  have none: "\<forall>(k, h') \<in> set api_registry. k \<noteq> ''*'' \<longrightarrow> \<not> regex h' ''/other''"
    by (simp add: api_registry_def)
  from match_after_build [OF extract_api, of "\<lparr>req_method = Some ''GET'', url = Some ''/other''\<rparr>"]
    p1 none
  have "\<exists>h. match example_deps api_registry \<lparr>req_method = Some ''GET'', url = Some ''/other''\<rparr>
          = Inr (Some h) \<and> Map_get api_registry ''*'' = Some h"
    by simp blast
  then have 1: "\<exists>h. match example_deps api_registry \<lparr>req_method = Some ''GET'', url = Some ''/other''\<rparr>
          = Inr (Some h) \<and> Map_get api_registry ''*'' = Some h \<and> pattern h = ''*''"
    by (auto simp: api_registry_def Map_get_def)
  have 2: "\<exists>h. match example_deps api_registry \<lparr>req_method = Some ''GET'', url = Some ''/api/users''\<rparr>
          = Inr (Some h) \<and> pattern h = ''/api/*''"
    by (simp add: match_def example_deps_def pathname_examples api_registry_def)
  from 1 2 show ?thesis by blast
qed

theorem match_without_url_counterexample:
  "extractBehaviors example_deps api_router = Inr (api_router\<lparr>behaviors := api_registry\<rparr>)
   \<and> match example_deps api_registry \<lparr>req_method = Some ''GET'', url = None\<rparr> = Inr None
   \<and> match example_deps api_registry \<lparr>req_method = Some ''GET'', url = Some []\<rparr> = Inr None
   \<and> match example_deps api_registry \<lparr>req_method = Some ''GET'', url = Some ''//''\<rparr>
       = Inl (TypeError ''Invalid URL'')"
proof -
  have "match example_deps api_registry \<lparr>req_method = Some ''GET'', url = Some ''//''\<rparr>
       = Inl (TypeError ''Invalid URL'')"
    by (simp add: match_def example_deps_def pathname_examples)
  with extract_api show ?thesis
    by (simp add: match_no_url)
qed



text \<open>
  C8. A build depends on the configuration only: the registry it is started on is
  cleared first, so the outcome is the same for every prior registry, and a build
  started on the router a build has left gives that router again.
\<close>

theorem build_idempotent:
  "(extractBehaviors D R = Inr R1 \<longrightarrow> extractBehaviors D R1 = Inr R1)
   \<and> extractBehaviors D (R\<lparr>behaviors := old\<rparr>) = extractBehaviors D (R\<lparr>behaviors := old'\<rparr>)"
proof
  show "extractBehaviors D R = Inr R1 \<longrightarrow> extractBehaviors D R1 = Inr R1"
  proof
    assume a: "extractBehaviors D R = Inr R1"
    then have r: "R1 = R\<lparr>behaviors := behaviors R1\<rparr>"
      by (rule extractBehaviors_Inr)
    have "extractBehaviors D (R\<lparr>behaviors := b\<rparr>) =
        map_sum id (\<lambda>R'. R'\<lparr>behaviors := behaviors R'\<rparr>) (extractBehaviors D R)" for b
      by (simp add: extractBehaviors_def Map_clear_def split: sum.splits option.splits)
    from this [of "behaviors R1"] a r show "extractBehaviors D R1 = Inr R1"
      by simp
  qed
  show "extractBehaviors D (R\<lparr>behaviors := old\<rparr>) = extractBehaviors D (R\<lparr>behaviors := old'\<rparr>)"
    by (simp add: extractBehaviors_def Map_clear_def split: sum.splits option.splits)
qed

theorem build_idempotent_witness:
  "extractBehaviors example_deps (example_router\<lparr>behaviors := example_registry\<rparr>)
     = Inr (example_router\<lparr>behaviors := example_registry\<rparr>)
   \<and> extractBehaviors example_deps (example_router\<lparr>behaviors := api_registry\<rparr>)
     = Inr (example_router\<lparr>behaviors := example_registry\<rparr>)"
proof -
  have e: "example_router\<lparr>behaviors := []\<rparr> = example_router"
    by (simp add: example_router_def)
  from build_idempotent [of example_deps example_router
      "example_router\<lparr>behaviors := example_registry\<rparr>" api_registry "[]"]
  show ?thesis
    by (simp add: extract_example e)
qed

end
